theory Spec2Isabelle
  imports Main "HOL-Library.Word"
begin

unbundle bit_operations_syntax

text \<open>
  A model of the LED pattern firmware: the three architecture templates
  (\<^verbatim>\<open>stm32f407_template.c\<close>, \<^verbatim>\<open>nuvoton_m051_template.c\<close>, \<^verbatim>\<open>pic18f4550_template.c\<close>) with
  the WS2812 encoder of the first, and the hash verification routine
  (\<^verbatim>\<open>hash_routine.c\<close>).  Each C function is a HOL function of the same name over an
  explicit hardware state; the definitions come first, the facts about them after.
\<close>

section \<open>The LED line as the firmware sees it\<close>

text \<open>
  The templates talk to one GPIO pin.  The model keeps the direction of the pin, the
  level of its output latch, and the program-ordered list of everything the code did
  to the line: a write that drives it HIGH, a write that drives it LOW, and one pass
  of the 1 ms body of \<^verbatim>\<open>delay_ms\<close>.  Nothing else in the sources touches the line.
\<close>

datatype level = LOW | HIGH

datatype line_event = PinHigh | PinLow | Wait1ms

record hw =
  pin_output :: bool
  line :: level
  trace :: "line_event list"

datatype error = OutOfBounds

text \<open>\<^verbatim>\<open>GPIO_SetBits(LED_PORT, LED_PIN)\<close> and \<^verbatim>\<open>GPIO_ResetBits(LED_PORT, LED_PIN)\<close>.\<close>

definition GPIO_SetBits :: "hw \<Rightarrow> hw" where
  "GPIO_SetBits s = s\<lparr>line := HIGH, trace := trace s @ [PinHigh]\<rparr>"

definition GPIO_ResetBits :: "hw \<Rightarrow> hw" where
  "GPIO_ResetBits s = s\<lparr>line := LOW, trace := trace s @ [PinLow]\<rparr>"

section \<open>The protocol encoder of the STM32F407 template\<close>

text \<open>
  The body of the inner loop of \<^verbatim>\<open>WS2812_Send\<close> for one value of \<^verbatim>\<open>bit\<close>.  The source
  tests \<^verbatim>\<open>byte & (1 << (7 - bit))\<close> and has two branches.  In both, the only statements
  are \<^verbatim>\<open>GPIO_SetBits\<close> followed by \<^verbatim>\<open>GPIO_ResetBits\<close>; the waits of 0.8/0.45 and
  0.4/0.85 microseconds are comments, so neither branch executes anything between or
  after the two writes.
\<close>

definition WS2812_bit :: "8 word \<Rightarrow> nat \<Rightarrow> hw \<Rightarrow> hw" where
  "WS2812_bit byte b s =
     (if byte AND push_bit (7 - b) 1 \<noteq> 0
      then GPIO_ResetBits (GPIO_SetBits s)
      else GPIO_ResetBits (GPIO_SetBits s))"

text \<open>The inner loop \<^verbatim>\<open>for (uint8_t bit = 0; bit < 8; bit++)\<close>, entered at \<^verbatim>\<open>bit = b\<close>.\<close>

function WS2812_byte :: "8 word \<Rightarrow> nat \<Rightarrow> hw \<Rightarrow> hw" where
  "WS2812_byte byte b s =
     (if b < 8 then WS2812_byte byte (b + 1) (WS2812_bit byte b s) else s)"
  by pat_completeness auto
termination
  by (relation "measure (\<lambda>(byte, b, s). 8 - b)") auto

declare WS2812_byte.simps [simp del]

text \<open>
  The outer loop \<^verbatim>\<open>for (uint16_t i = 0; i < Len; i++)\<close>, entered at index \<open>i\<close>.  The
  counter stays below \<open>Len \<le> 65535\<close>, so it never wraps.  C reads \<^verbatim>\<open>pData[i]\<close> without
  a check; a read past the buffer is the error \<open>OutOfBounds\<close> here.
\<close>

function WS2812_loop :: "8 word list \<Rightarrow> nat \<Rightarrow> nat \<Rightarrow> hw \<Rightarrow> error + hw" where
  "WS2812_loop pData Len i s =
     (if i < Len
      then (if i < length pData
            then WS2812_loop pData Len (i + 1) (WS2812_byte (pData ! i) 0 s)
            else Inl OutOfBounds)
      else Inr s)"
  by pat_completeness auto
termination
  by (relation "measure (\<lambda>(pData, Len, i, s). Len - i)") auto

declare WS2812_loop.simps [simp del]

definition WS2812_Send :: "8 word list \<Rightarrow> 16 word \<Rightarrow> hw \<Rightarrow> error + hw" where
  "WS2812_Send pData Len s = WS2812_loop pData (unat Len) 0 s"

text \<open>One bit-pulse on the line: the two writes of either branch.\<close>

definition pulse :: "line_event list" where
  "pulse = [PinHigh, PinLow]"

definition pulses :: "nat \<Rightarrow> line_event list" where
  "pulses n = concat (replicate n pulse)"


section \<open>The compile-time pattern tables\<close>

text \<open>
  \<^verbatim>\<open>pattern_data.h\<close> is generated by the build and is not among the sources.  The
  templates use four names from it, taken here as parameters: \<^verbatim>\<open>FRAME_COUNT\<close>,
  \<^verbatim>\<open>LED_COUNT\<close> (\<^verbatim>\<open>NUM_LEDS\<close> in the STM32 template), \<^verbatim>\<open>frames\<close> and
  \<^verbatim>\<open>frame_durations\<close>, whose entries the templates read into \<^verbatim>\<open>uint16_t\<close>.
\<close>

record pattern_data =
  FRAME_COUNT :: nat
  LED_COUNT :: nat
  frames :: "8 word list list"
  frame_durations :: "16 word list"

section \<open>The delay\<close>

text \<open>
  \<^verbatim>\<open>delay_ms\<close> has the same outer loop in the three templates,
  \<^verbatim>\<open>for (uint16_t i = 0; i < ms; i++)\<close>, around a body meant to last one millisecond: a
  busy loop of 1000 empty iterations (STM32, PIC) or \<^verbatim>\<open>CLK_SysTickDelay(1000)\<close>
  (Nuvoton).  One pass of that body is the event \<open>Wait1ms\<close>; how long it lasts on the
  wall clock is not something the code fixes.
\<close>

definition wait_1ms :: "hw \<Rightarrow> hw" where
  "wait_1ms s = s\<lparr>trace := trace s @ [Wait1ms]\<rparr>"

function delay_loop :: "nat \<Rightarrow> nat \<Rightarrow> hw \<Rightarrow> hw" where
  "delay_loop ms i s = (if i < ms then delay_loop ms (i + 1) (wait_1ms s) else s)"
  by pat_completeness auto
termination
  by (relation "measure (\<lambda>(ms, i, s). ms - i)") auto

declare delay_loop.simps [simp del]

definition delay_ms :: "16 word \<Rightarrow> hw \<Rightarrow> hw" where
  "delay_ms ms s = delay_loop (unat ms) 0 s"

section \<open>The STM32F407 template\<close>

text \<open>
  INIT: \<^verbatim>\<open>SystemInit()\<close> and \<^verbatim>\<open>RCC_AHB1PeriphClockCmd\<close> are vendor calls that set up
  clocks; \<^verbatim>\<open>GPIO_Init\<close> with \<^verbatim>\<open>GPIO_Mode_OUT\<close> makes the pin an output.  No statement
  of this INIT writes the output latch.
\<close>

definition SystemInit :: "hw \<Rightarrow> hw" where
  "SystemInit s = s"

definition RCC_AHB1PeriphClockCmd :: "hw \<Rightarrow> hw" where
  "RCC_AHB1PeriphClockCmd s = s"

definition GPIO_Init :: "hw \<Rightarrow> hw" where
  "GPIO_Init s = s\<lparr>pin_output := True\<rparr>"

definition stm32_init :: "hw \<Rightarrow> hw" where
  "stm32_init s = GPIO_Init (RCC_AHB1PeriphClockCmd (SystemInit s))"

text \<open>
  The \<^verbatim>\<open>Len\<close> argument of the call \<^verbatim>\<open>WS2812_Send((uint8_t*)frame_pixels, LED_COUNT * 3)\<close>:
  the product is converted to the parameter's type \<^verbatim>\<open>uint16_t\<close>.
\<close>

definition stm32_Len :: "pattern_data \<Rightarrow> 16 word" where
  "stm32_Len pd = word_of_nat (LED_COUNT pd * 3)"

text \<open>The body of the \<^verbatim>\<open>for\<close> loop over \<^verbatim>\<open>frame_idx\<close>; the two table reads are checked.\<close>

definition stm32_frame :: "pattern_data \<Rightarrow> 16 word \<Rightarrow> hw \<Rightarrow> error + hw" where
  "stm32_frame pd frame_idx s =
     (if unat frame_idx < length (frames pd) \<and> unat frame_idx < length (frame_durations pd)
      then
        (let frame_pixels = frames pd ! unat frame_idx;
             frame_duration = frame_durations pd ! unat frame_idx
         in case WS2812_Send frame_pixels (stm32_Len pd) s of
              Inl e \<Rightarrow> Inl e
            | Inr s' \<Rightarrow> Inr (delay_ms frame_duration s'))
      else Inl OutOfBounds)"

text \<open>
  \<^verbatim>\<open>while (1) { for (uint16_t frame_idx = 0; frame_idx < FRAME_COUNT; frame_idx++) ... }\<close>
  never returns, so the model runs it for a given number of evaluations of the loop
  condition \<^verbatim>\<open>frame_idx < FRAME_COUNT\<close> and returns the index and the hardware state
  reached.  When the condition fails the \<^verbatim>\<open>for\<close> ends and \<^verbatim>\<open>while (1)\<close> starts it
  again at index 0.  The increment is that of a \<^verbatim>\<open>uint16_t\<close>.
\<close>

fun stm32_playback :: "pattern_data \<Rightarrow> nat \<Rightarrow> 16 word \<Rightarrow> hw \<Rightarrow> error + (16 word \<times> hw)" where
  "stm32_playback pd 0 frame_idx s = Inr (frame_idx, s)"
| "stm32_playback pd (Suc n) frame_idx s =
     (if unat frame_idx < FRAME_COUNT pd
      then (case stm32_frame pd frame_idx s of
              Inl e \<Rightarrow> Inl e
            | Inr s' \<Rightarrow> stm32_playback pd n (frame_idx + 1) s')
      else stm32_playback pd n 0 s)"

definition stm32_main :: "pattern_data \<Rightarrow> nat \<Rightarrow> hw \<Rightarrow> error + (16 word \<times> hw)" where
  "stm32_main pd n s = stm32_playback pd n 0 (stm32_init s)"

section \<open>The Nuvoton M051 template\<close>

text \<open>
  INIT: \<^verbatim>\<open>SYS_Init()\<close> (clocks), \<^verbatim>\<open>GPIO_SetMode(LED_PORT, LED_PIN, GPIO_PMD_OUTPUT)\<close>, then
  \<^verbatim>\<open>GPIO_CLR(LED_PORT, LED_PIN)\<close>, which writes the latch LOW.
\<close>

definition SYS_Init :: "hw \<Rightarrow> hw" where
  "SYS_Init s = s"

definition GPIO_SetMode :: "hw \<Rightarrow> hw" where
  "GPIO_SetMode s = s\<lparr>pin_output := True\<rparr>"

definition GPIO_CLR :: "hw \<Rightarrow> hw" where
  "GPIO_CLR s = s\<lparr>line := LOW, trace := trace s @ [PinLow]\<rparr>"

definition nuvoton_init :: "hw \<Rightarrow> hw" where
  "nuvoton_init s = GPIO_CLR (GPIO_SetMode (SYS_Init s))"

text \<open>
  The pixel loop \<^verbatim>\<open>for (uint16_t i = 0; i < LED_COUNT; i++) { }\<close>: its body holds comments
  only (the call of \<^verbatim>\<open>WS2812_Send\<close> is commented out), so it changes nothing; it returns
  when the \<^verbatim>\<open>uint16_t\<close> counter reaches \<^verbatim>\<open>LED_COUNT\<close>, and \<open>None\<close> is not returning.
\<close>

partial_function (option) nuvoton_pixel_loop :: "nat \<Rightarrow> 16 word \<Rightarrow> unit option" where
  "nuvoton_pixel_loop led_count i =
     (if unat i < led_count then nuvoton_pixel_loop led_count (i + 1) else Some ())"

declare nuvoton_pixel_loop.simps [code]

definition nuvoton_frame :: "pattern_data \<Rightarrow> 16 word \<Rightarrow> hw \<Rightarrow> (error + hw) option" where
  "nuvoton_frame pd frame_idx s =
     (if unat frame_idx < length (frames pd) \<and> unat frame_idx < length (frame_durations pd)
      then
        (let frame_pixels = frames pd ! unat frame_idx;
             frame_duration = frame_durations pd ! unat frame_idx
         in case nuvoton_pixel_loop (LED_COUNT pd) 0 of
              None \<Rightarrow> None
            | Some _ \<Rightarrow> Some (Inr (delay_ms frame_duration s)))
      else Some (Inl OutOfBounds))"

section \<open>The PIC18F4550 template\<close>

text \<open>
  INIT: \<^verbatim>\<open>OSCCON = 0x70\<close> (oscillator), \<^verbatim>\<open>LED_TRIS = 0\<close> (the pin is an output), then
  \<^verbatim>\<open>LED_PORT = 0\<close>, which writes the whole of PORTB, the LED pin included, LOW.
\<close>

definition set_OSCCON :: "hw \<Rightarrow> hw" where
  "set_OSCCON s = s"

definition clear_LED_TRIS :: "hw \<Rightarrow> hw" where
  "clear_LED_TRIS s = s\<lparr>pin_output := True\<rparr>"

definition clear_LED_PORT :: "hw \<Rightarrow> hw" where
  "clear_LED_PORT s = s\<lparr>line := LOW, trace := trace s @ [PinLow]\<rparr>"

definition pic_init :: "hw \<Rightarrow> hw" where
  "pic_init s = clear_LED_PORT (clear_LED_TRIS (set_OSCCON s))"

text \<open>The pixel loop \<^verbatim>\<open>for (uint8_t i = 0; i < LED_COUNT; i++) { }\<close>, empty as well.\<close>

partial_function (option) pic_pixel_loop :: "nat \<Rightarrow> 8 word \<Rightarrow> unit option" where
  "pic_pixel_loop led_count i =
     (if unat i < led_count then pic_pixel_loop led_count (i + 1) else Some ())"

declare pic_pixel_loop.simps [code]

definition pic_frame :: "pattern_data \<Rightarrow> 8 word \<Rightarrow> hw \<Rightarrow> (error + hw) option" where
  "pic_frame pd frame_idx s =
     (if unat frame_idx < length (frames pd) \<and> unat frame_idx < length (frame_durations pd)
      then
        (let frame_pixels = frames pd ! unat frame_idx;
             frame_duration = frame_durations pd ! unat frame_idx
         in case pic_pixel_loop (LED_COUNT pd) 0 of
              None \<Rightarrow> None
            | Some _ \<Rightarrow> Some (Inr (delay_ms frame_duration s)))
      else Some (Inl OutOfBounds))"

section \<open>The PLAYBACK loop as the specification words it\<close>

text \<open>
  One iteration for frame \<open>i\<close>: call the encoder with \<^verbatim>\<open>frames[i]\<close> and
  \<^verbatim>\<open>LED_COUNT * 3\<close>, then block for \<^verbatim>\<open>frame_durations[i]\<close>.  A run visits a list of
  frame indices in order.  These two definitions follow the specification's sentence;
  the theorem about PLAYBACK compares the loop of the source with them.
\<close>

definition iteration :: "pattern_data \<Rightarrow> nat \<Rightarrow> hw \<Rightarrow> error + hw" where
  "iteration pd i s =
     (case WS2812_Send (frames pd ! i) (word_of_nat (LED_COUNT pd * 3)) s of
        Inl e \<Rightarrow> Inl e
      | Inr s' \<Rightarrow> Inr (delay_ms (frame_durations pd ! i) s'))"

fun iterations :: "pattern_data \<Rightarrow> nat list \<Rightarrow> hw \<Rightarrow> error + hw" where
  "iterations pd [] s = Inr s"
| "iterations pd (i # js) s =
     (case iteration pd i s of Inl e \<Rightarrow> Inl e | Inr s' \<Rightarrow> iterations pd js s')"

text \<open>
  What the tables must satisfy for the reads of the loop to stay inside them and for
  the counters to fit their C types.
\<close>

definition fits_tables :: "pattern_data \<Rightarrow> bool" where
  "fits_tables pd \<longleftrightarrow>
     FRAME_COUNT pd \<le> 65535 \<and> LED_COUNT pd * 3 \<le> 65535 \<and>
     length (frames pd) = FRAME_COUNT pd \<and>
     length (frame_durations pd) = FRAME_COUNT pd \<and>
     list_all (\<lambda>f. LED_COUNT pd * 3 \<le> length f) (frames pd)"

section \<open>The verification hasher\<close>

text \<open>
  \<^verbatim>\<open>hash_routine.c\<close> declares \<^verbatim>\<open>sha256_hash\<close>, \<^verbatim>\<open>serial_print\<close> and
  \<^verbatim>\<open>serial_print_hex\<close> and leaves them to the platform, so \<^verbatim>\<open>main\<close> takes them as
  parameters.  A serial call works on a channel state of any type and either returns
  the new state or, as \<open>None\<close>, does not return.  \<^verbatim>\<open>main\<close> calls the digest, then the
  three serial calls in order, and returns 0.
\<close>

definition newline :: string where
  "newline = [CHR 0x0A]"

definition hash_main ::
  "(8 word list \<Rightarrow> nat \<Rightarrow> 8 word list) \<Rightarrow> (string \<Rightarrow> 'c \<Rightarrow> 'c option) \<Rightarrow>
   (8 word list \<Rightarrow> nat \<Rightarrow> 'c \<Rightarrow> 'c option) \<Rightarrow> 8 word list \<Rightarrow> nat \<Rightarrow> 'c \<Rightarrow> ('c \<times> int) option" where
  "hash_main sha256_hash serial_print serial_print_hex firmware_data firmware_size c =
     (let hash = sha256_hash firmware_data firmware_size
      in case serial_print ''FIRMWARE_HASH:'' c of
           None \<Rightarrow> None
         | Some c1 \<Rightarrow>
             (case serial_print_hex hash 32 c1 of
                None \<Rightarrow> None
              | Some c2 \<Rightarrow>
                  (case serial_print newline c2 of
                     None \<Rightarrow> None
                   | Some c3 \<Rightarrow> Some (c3, 0))))"

text \<open>
  Modelled from the spec: \<^verbatim>\<open>serial_print\<close> and \<^verbatim>\<open>serial_print_hex\<close> are declarations
  without a body in the sources.  The specification has the digest sent as lowercase
  hexadecimal characters, two per byte, over a serial channel; a working channel is
  the text sent so far, and each call appends to it and returns.
\<close>

definition hex_digit :: "nat \<Rightarrow> char" where
  "hex_digit n = ''0123456789abcdef'' ! n"

definition hex_byte :: "8 word \<Rightarrow> string" where
  "hex_byte b = [hex_digit (unat b div 16), hex_digit (unat b mod 16)]"

definition hex_string :: "8 word list \<Rightarrow> string" where
  "hex_string bs = concat (map hex_byte bs)"



text \<open>
  A platform whose serial calls poll the transmitter: a call returns once the
  transmitter is ready and never returns while it is not.  The sources allow it, since
  they say nothing about how \<^verbatim>\<open>serial_print\<close> waits.
\<close>

record uart =
  tx_ready :: bool
  sent :: string

definition polled_print :: "string \<Rightarrow> uart \<Rightarrow> uart option" where
  "polled_print str u = (if tx_ready u then Some (u\<lparr>sent := sent u @ str\<rparr>) else None)"

definition polled_print_hex :: "8 word list \<Rightarrow> nat \<Rightarrow> uart \<Rightarrow> uart option" where
  "polled_print_hex bytes len u =
     (if tx_ready u then Some (u\<lparr>sent := sent u @ hex_string (take len bytes)\<rparr>) else None)"

text \<open>A stand-in digest for concrete runs: 32 bytes, each the low byte of the size.\<close>

definition sample_digest :: "8 word list \<Rightarrow> nat \<Rightarrow> 8 word list" where
  "sample_digest firmware_data firmware_size = replicate 32 (word_of_nat firmware_size)"




section \<open>The frame table emitter\<close>

text \<open>
  A pattern as the specification's data model has it: frames of pixels (three 8-bit
  channels in wire order) with a duration in milliseconds, and the LED count the
  pattern was authored for.
\<close>

record frame =
  pixels :: "(8 word \<times> 8 word \<times> 8 word) list"
  duration :: nat

record pattern =
  pattern_frames :: "frame list"
  pattern_led_count :: nat

datatype build_error = EmptyPattern | PixelCountMismatch

record frame_tables =
  table_frame_count :: nat
  table_led_count :: nat
  table_durations :: "nat list"
  table_frames :: "8 word list list"

definition pixel_bytes :: "8 word \<times> 8 word \<times> 8 word \<Rightarrow> 8 word list" where
  "pixel_bytes p = (case p of (c1, c2, c3) \<Rightarrow> [c1, c2, c3])"

text \<open>
  Modelled from the spec: the Frame Table Emitter is not among the sources (only the
  templates that include its output are).  Section 4.1: given a Pattern it produces the
  frame count, the duration table and the per-frame pixel table of \<^verbatim>\<open>LED_COUNT * 3\<close>
  bytes; it fails if the Pattern is empty or if any frame's pixel count differs from
  \<^verbatim>\<open>LED_COUNT\<close>.  A failure is a result that carries no tables.
\<close>

definition emit_frame_tables :: "pattern \<Rightarrow> build_error + frame_tables" where
  "emit_frame_tables p =
     (if pattern_frames p = [] then Inl EmptyPattern
      else if list_ex (\<lambda>f. length (pixels f) \<noteq> pattern_led_count p) (pattern_frames p)
      then Inl PixelCountMismatch
      else Inr \<lparr>table_frame_count = length (pattern_frames p),
               table_led_count = pattern_led_count p,
               table_durations = map duration (pattern_frames p),
               table_frames = map (\<lambda>f. concat (map pixel_bytes (pixels f))) (pattern_frames p)\<rparr>)"

section \<open>Concrete data for the evaluations\<close>

text \<open>
  The two-frame pattern of the specification's scenario (one LED, red then green),
  with durations of 2 and 3 ms to keep the traces short; \<open>no_hold\<close> is the same
  with both durations 0.
\<close>

definition red_green :: pattern_data where
  "red_green = \<lparr>FRAME_COUNT = 2, LED_COUNT = 1,
                frames = [[255, 0, 0], [0, 255, 0]], frame_durations = [2, 3]\<rparr>"

definition no_hold :: pattern_data where
  "no_hold = \<lparr>FRAME_COUNT = 2, LED_COUNT = 1,
              frames = [[255, 0, 0], [0, 255, 0]], frame_durations = [0, 0]\<rparr>"

definition red_green_pattern :: pattern where
  "red_green_pattern =
     \<lparr>pattern_frames = [\<lparr>pixels = [(255, 0, 0)], duration = 500\<rparr>,
                        \<lparr>pixels = [(0, 255, 0)], duration = 500\<rparr>],
      pattern_led_count = 1\<rparr>"

definition short_frame_pattern :: pattern where
  "short_frame_pattern =
     \<lparr>pattern_frames = [\<lparr>pixels = [(255, 0, 0)], duration = 500\<rparr>,
                        \<lparr>pixels = [], duration = 500\<rparr>],
      pattern_led_count = 1\<rparr>"

definition idle_low :: hw where
  "idle_low = \<lparr>pin_output = True, line = LOW, trace = []\<rparr>"

definition idle_high :: hw where
  "idle_high = \<lparr>pin_output = True, line = HIGH, trace = []\<rparr>"

definition reset_high :: hw where
  "reset_high = \<lparr>pin_output = False, line = HIGH, trace = []\<rparr>"

definition uart_not_ready :: uart where
  "uart_not_ready = \<lparr>tx_ready = False, sent = []\<rparr>"

section \<open>Facts about the encoder\<close>

text \<open>
  The test of the inner loop looks at bit \<open>7 - b\<close> of the byte, the most significant
  bit first; what follows the test is the same in both branches.
\<close>

lemma WS2812_bit_test:
  "(byte AND push_bit (7 - b) 1 \<noteq> 0) = bit byte (7 - b)"
  for byte :: "8 word"
  by (simp add: and_exp_eq_0_iff_not_bit)

lemma WS2812_bit_eq:
  "WS2812_bit byte b s = s\<lparr>line := LOW, trace := trace s @ pulse\<rparr>"
  by (simp add: WS2812_bit_def GPIO_SetBits_def GPIO_ResetBits_def pulse_def)

lemma pulses_Suc: "pulses (Suc n) = pulse @ pulses n"
  by (simp add: pulses_def)

lemma pulses_add: "pulses (m + n) = pulses m @ pulses n"
  by (simp add: pulses_def replicate_add)

lemma pulses_0: "pulses 0 = []"
  by (simp add: pulses_def)

lemma length_pulses: "length (pulses n) = 2 * n"
  by (induction n) (simp_all add: pulses_0 pulses_Suc pulse_def)

lemma WS2812_byte_from:
  "b < 8 \<Longrightarrow>
   WS2812_byte byte b s = s\<lparr>line := LOW, trace := trace s @ pulses (8 - b)\<rparr>"
proof (induction byte b s rule: WS2812_byte.induct)
  case (1 byte b s)
  show ?case
  proof (cases "b + 1 < 8")
    case True
    have "8 - b = Suc (8 - (b + 1))" using True by simp
    then show ?thesis
      using 1 True
      by (simp add: WS2812_byte.simps [of byte b] WS2812_bit_eq pulses_Suc)
  next
    case False
    with 1 have b: "b = 7" by simp
    show ?thesis
      by (simp add: b WS2812_byte.simps [of byte 7] WS2812_byte.simps [of byte 8]
          WS2812_bit_eq pulses_def)
  qed
qed

lemma WS2812_byte_eq:
  "WS2812_byte byte 0 s = s\<lparr>line := LOW, trace := trace s @ pulses 8\<rparr>"
  using WS2812_byte_from [of 0 byte s] by simp

lemma WS2812_loop_eq:
  "Len \<le> length pData \<Longrightarrow> i \<le> Len \<Longrightarrow>
   WS2812_loop pData Len i s =
     Inr (if i = Len then s
          else s\<lparr>line := LOW, trace := trace s @ pulses (8 * (Len - i))\<rparr>)"
proof (induction pData Len i s rule: WS2812_loop.induct)
  case (1 pData Len i s)
  show ?case
  proof (cases "i < Len")
    case False
    have "WS2812_loop pData Len i s = Inr s"
      using False by (subst WS2812_loop.simps) simp
    with 1 False show ?thesis by simp
  next
    case True
    then have inb: "i < length pData" using 1 by simp
    have split: "8 * (Len - i) = 8 + 8 * (Len - (i + 1))" using True by simp
    show ?thesis
      using 1 True inb
      by (simp add: WS2812_loop.simps [of pData Len i] WS2812_byte_eq split pulses_add pulses_0)
  qed
qed

lemma WS2812_Send_eq:
  "unat Len \<le> length pData \<Longrightarrow>
   WS2812_Send pData Len s =
     Inr (if Len = 0 then s
          else s\<lparr>line := LOW, trace := trace s @ pulses (8 * unat Len)\<rparr>)"
  using WS2812_loop_eq [of "unat Len" pData 0 s]
  by (simp add: WS2812_Send_def unat_eq_0)

lemma last_pulses: "0 < n \<Longrightarrow> last (xs @ pulses n) = PinLow"
proof -
  assume "0 < n"
  then obtain k where k: "n = Suc k" by (cases n) auto
  have "pulses (Suc k) = pulses k @ pulse"
    using pulses_add [of k 1] by (simp add: pulses_def)
  then show ?thesis by (simp add: k pulse_def)
qed

lemma WS2812_Send_nonzero:
  assumes "Len \<noteq> 0" and "unat Len \<le> length pData"
  shows "WS2812_Send pData Len s =
           Inr (s\<lparr>line := LOW, trace := trace s @ pulses (8 * unat Len)\<rparr>)"
    and "last (trace s @ pulses (8 * unat Len)) = PinLow"
proof -
  show "WS2812_Send pData Len s =
           Inr (s\<lparr>line := LOW, trace := trace s @ pulses (8 * unat Len)\<rparr>)"
    using assms by (simp add: WS2812_Send_eq)
  have "0 < 8 * unat Len" using assms(1) by (simp add: unat_gt_0)
  then show "last (trace s @ pulses (8 * unat Len)) = PinLow" by (rule last_pulses)
qed

text \<open>
  Claim C10.  A call with \<^verbatim>\<open>Len = 0\<close> returns the hardware state it was given: no write
  is added to the trace and the level of the line is the one before the call, whatever
  the buffer.
\<close>

theorem WS2812_Send_zero_length:
  "WS2812_Send pData 0 s = Inr s"
  by (simp add: WS2812_Send_def WS2812_loop.simps [of pData 0 0])

text \<open>
  Claim C9 as stated fails for \<^verbatim>\<open>Len = 0\<close>: called while the line is HIGH, the encoder
  emits no pulse and returns with the line still HIGH.
\<close>

theorem WS2812_Send_idle_high_counterexample:
  "WS2812_Send [] 0 idle_high = Inr idle_high \<and> line idle_high = HIGH"
  by (simp add: WS2812_Send_def WS2812_loop.simps [of "[]" 0 0] idle_high_def)

text \<open>
  Claim C9, amended.  For every buffer and every \<^verbatim>\<open>Len\<close> of at least 1 that stays inside
  the buffer, the call completes, what it adds to the trace is \<open>8 * Len\<close> pulses, each a
  write HIGH followed by a write LOW, the last write is the one that drives the line
  LOW, and the line is LOW after the call.
\<close>

theorem WS2812_Send_ends_low:
  assumes "Len \<noteq> 0" and "unat Len \<le> length pData"
  shows "\<exists>s'. WS2812_Send pData Len s = Inr s' \<and> line s' = LOW \<and>
           trace s' = trace s @ pulses (8 * unat Len) \<and>
           last (trace s') = PinLow"
  using WS2812_Send_nonzero [OF assms, of s] by simp

text \<open>The amended claim C9 at the one-byte buffer \<^verbatim>\<open>A5\<close>, sent while the line is HIGH.\<close>

theorem WS2812_Send_ends_low_witness:
  "(1 :: 16 word) \<noteq> 0 \<and> unat (1 :: 16 word) \<le> length [0xA5 :: 8 word] \<and>
   (\<exists>s'. WS2812_Send [0xA5] 1 idle_high = Inr s' \<and> line s' = LOW \<and>
      trace s' = trace idle_high @ pulses (8 * unat (1 :: 16 word)) \<and>
      last (trace s') = PinLow)"
  using WS2812_Send_ends_low [of 1 "[0xA5]" idle_high] by simp

text \<open>
  Claim C1 at the bytes \<^verbatim>\<open>0xFF\<close> and \<^verbatim>\<open>0x00\<close>.  The encoder emits 8 pulses for the one
  byte, but the eight "1" bits and the eight "0" bits give the same writes with nothing
  between them: the pulse of a 1 is not longer HIGH than the pulse of a 0.
\<close>

theorem WS2812_Send_same_pulses_for_ones_and_zeros:
  "WS2812_Send [0xFF] 1 idle_low = Inr (idle_low\<lparr>trace := pulses 8\<rparr>) \<and>
   WS2812_Send [0x00] 1 idle_low = Inr (idle_low\<lparr>trace := pulses 8\<rparr>)"
  by (simp add: WS2812_Send_eq idle_low_def)

text \<open>
  Claim C8 at the buffers \<^verbatim>\<open>FF 00 00\<close> and \<^verbatim>\<open>00 FF 00\<close>.  Both are encoded to the same
  result, so whatever a decoder reads off the line, it cannot give back both buffers.
\<close>

theorem WS2812_Send_not_decodable:
  "WS2812_Send [0xFF, 0x00, 0x00] 3 idle_low = WS2812_Send [0x00, 0xFF, 0x00] 3 idle_low \<and>
   \<not> (decode (WS2812_Send [0xFF, 0x00, 0x00] 3 idle_low) = [0xFF, 0x00, 0x00 :: 8 word] \<and>
      decode (WS2812_Send [0x00, 0xFF, 0x00] 3 idle_low) = [0x00, 0xFF, 0x00])"
  by (simp add: WS2812_Send_eq)

section \<open>Facts about the delay and the PLAYBACK loop\<close>

lemma delay_loop_eq:
  "delay_loop ms i s = s\<lparr>trace := trace s @ replicate (ms - i) Wait1ms\<rparr>"
proof (induction ms i s rule: delay_loop.induct)
  case (1 ms i s)
  show ?case
  proof (cases "i < ms")
    case True
    then have "ms - i = Suc (ms - (i + 1))" by simp
    then show ?thesis
      using 1 True
      by (simp add: delay_loop.simps [of ms i] wait_1ms_def replicate_append_same)
  next
    case False
    then show ?thesis by (simp add: delay_loop.simps [of ms i])
  qed
qed

lemma delay_ms_eq:
  "delay_ms ms s = s\<lparr>trace := trace s @ replicate (unat ms) Wait1ms\<rparr>"
  by (simp add: delay_ms_def delay_loop_eq)

lemma replicate_two: "replicate 2 x = [x, x]"
  by (simp add: numeral_2_eq_2)

lemma iterations_append:
  "iterations pd (xs @ ys) s =
     (case iterations pd xs s of Inl e \<Rightarrow> Inl e | Inr s' \<Rightarrow> iterations pd ys s')"
  by (induction xs arbitrary: s) (auto split: sum.splits)

lemma unat_frame_idx: "k \<le> 65535 \<Longrightarrow> unat (word_of_nat k :: 16 word) = k"
  by (simp add: unat_of_nat)

lemma unat_stm32_Len:
  assumes "fits_tables pd"
  shows "unat (stm32_Len pd) = LED_COUNT pd * 3"
proof -
  have "LED_COUNT pd * 3 \<le> 65535" using assms by (simp add: fits_tables_def)
  then show ?thesis unfolding stm32_Len_def by (rule unat_frame_idx)
qed

lemma stm32_frame_iteration:
  assumes "fits_tables pd" and "k < FRAME_COUNT pd"
  shows "stm32_frame pd (word_of_nat k) s = iteration pd k s"
proof -
  have "k \<le> 65535" using assms by (simp add: fits_tables_def)
  then have "unat (word_of_nat k :: 16 word) = k" by (rule unat_frame_idx)
  then show ?thesis
    using assms by (simp add: stm32_frame_def iteration_def fits_tables_def stm32_Len_def)
qed

lemma iteration_ok:
  assumes "fits_tables pd" and "k < FRAME_COUNT pd"
  shows "\<exists>s'. iteration pd k s = Inr s'"
proof -
  have len: "unat (word_of_nat (LED_COUNT pd * 3) :: 16 word) = LED_COUNT pd * 3"
    using unat_stm32_Len [OF assms(1)] by (simp only: stm32_Len_def)
  have "LED_COUNT pd * 3 \<le> length (frames pd ! k)"
    using assms by (simp add: fits_tables_def list_all_length)
  then show ?thesis
    using len by (simp add: iteration_def WS2812_Send_eq del: of_nat_mult)
qed

lemma iterations_ok:
  assumes "fits_tables pd" and "list_all (\<lambda>k. k < FRAME_COUNT pd) ks"
  shows "\<exists>s'. iterations pd ks s = Inr s'"
  using assms(2)
proof (induction ks arbitrary: s)
  case Nil
  then show ?case by simp
next
  case (Cons k ks)
  then obtain s1 where "iteration pd k s = Inr s1"
    using iteration_ok [OF assms(1), of k s] by auto
  then show ?case using Cons by simp
qed

lemma stm32_playback_rest_of_pass:
  assumes "fits_tables pd" and "k \<le> FRAME_COUNT pd"
  shows "stm32_playback pd (Suc (FRAME_COUNT pd - k) + n) (word_of_nat k) s =
           (case iterations pd [k..<FRAME_COUNT pd] s of
              Inl e \<Rightarrow> Inl e
            | Inr s' \<Rightarrow> stm32_playback pd n 0 s')"
  using assms(2)
proof (induction "FRAME_COUNT pd - k" arbitrary: k s)
  case 0
  then have k: "k = FRAME_COUNT pd" by simp
  have "unat (word_of_nat k :: 16 word) = k"
    using assms(1) k by (simp add: fits_tables_def unat_frame_idx)
  then show ?case using k by simp
next
  case (Suc d)
  then have lt: "k < FRAME_COUNT pd" by simp
  have u: "unat (word_of_nat k :: 16 word) = k"
    using assms(1) lt by (simp add: fits_tables_def unat_frame_idx)
  have next_idx: "(word_of_nat k :: 16 word) + 1 = word_of_nat (Suc k)" by simp
  have d: "d = FRAME_COUNT pd - Suc k" using Suc.hyps(2) by simp
  have steps: "Suc (FRAME_COUNT pd - k) + n = Suc (Suc (FRAME_COUNT pd - Suc k) + n)"
    using lt by simp
  have range: "[k..<FRAME_COUNT pd] = k # [Suc k..<FRAME_COUNT pd]"
    using lt by (simp add: upt_conv_Cons)
  have IH: "\<And>s'. stm32_playback pd (Suc (FRAME_COUNT pd - Suc k) + n) (word_of_nat (Suc k)) s' =
           (case iterations pd [Suc k..<FRAME_COUNT pd] s' of
              Inl e \<Rightarrow> Inl e
            | Inr s'' \<Rightarrow> stm32_playback pd n 0 s'')"
    using Suc.hyps(1) [OF d] lt by simp
  show ?case
    unfolding steps range
    using lt u IH stm32_frame_iteration [OF assms(1) lt, of s]
    by (simp add: next_idx split: sum.splits)
qed

lemma stm32_playback_passes:
  assumes "fits_tables pd"
  shows "stm32_playback pd (m * Suc (FRAME_COUNT pd) + n) 0 s =
           (case iterations pd (concat (replicate m [0..<FRAME_COUNT pd])) s of
              Inl e \<Rightarrow> Inl e
            | Inr s' \<Rightarrow> stm32_playback pd n 0 s')"
proof (induction m arbitrary: s)
  case 0
  then show ?case by simp
next
  case (Suc m)
  define r where "r = m * Suc (FRAME_COUNT pd) + n"
  have steps: "Suc m * Suc (FRAME_COUNT pd) + n = Suc (FRAME_COUNT pd - 0) + r"
    by (simp add: r_def)
  have first: "stm32_playback pd (Suc (FRAME_COUNT pd - 0) + r) (word_of_nat 0) s =
           (case iterations pd [0..<FRAME_COUNT pd] s of
              Inl e \<Rightarrow> Inl e
            | Inr s' \<Rightarrow> stm32_playback pd r 0 s')"
    by (rule stm32_playback_rest_of_pass [OF assms]) simp
  have rest: "\<And>s'. stm32_playback pd r 0 s' =
           (case iterations pd (concat (replicate m [0..<FRAME_COUNT pd])) s' of
              Inl e \<Rightarrow> Inl e
            | Inr s'' \<Rightarrow> stm32_playback pd n 0 s'')"
    unfolding r_def by (rule Suc.IH)
  have "stm32_playback pd (Suc m * Suc (FRAME_COUNT pd) + n) 0 s =
           (case iterations pd [0..<FRAME_COUNT pd] s of
              Inl e \<Rightarrow> Inl e
            | Inr s' \<Rightarrow> stm32_playback pd r 0 s')"
    unfolding steps using first by simp
  then show ?case
    by (simp add: rest iterations_append split: sum.splits)
qed

lemma stm32_playback_two:
  "stm32_playback pd 2 i s = stm32_playback pd (Suc (Suc 0)) i s"
  by (simp add: numeral_2_eq_2)

text \<open>
  Claim C3 as stated fails.  On the two-frame pattern, the loop body of the Nuvoton
  template and that of the PIC template leave nothing on the line but the two delay
  passes: the encoder is not called (the STM32 body, next to them, sends 24 pulses
  first).  And in the STM32 template the length handed to the encoder is
  \<^verbatim>\<open>LED_COUNT * 3\<close> cut to 16 bits: for 21846 LEDs it is 2, not 65538.
\<close>

theorem playback_without_encoder_counterexample:
  "nuvoton_frame red_green 0 idle_low = Some (Inr (idle_low\<lparr>trace := [Wait1ms, Wait1ms]\<rparr>)) \<and>
   pic_frame red_green 0 idle_low = Some (Inr (idle_low\<lparr>trace := [Wait1ms, Wait1ms]\<rparr>)) \<and>
   stm32_frame red_green 0 idle_low = Inr (idle_low\<lparr>trace := pulses 24 @ [Wait1ms, Wait1ms]\<rparr>) \<and>
   stm32_Len (red_green\<lparr>LED_COUNT := 21846\<rparr>) = 2"
proof (intro conjI)
  show "nuvoton_frame red_green 0 idle_low = Some (Inr (idle_low\<lparr>trace := [Wait1ms, Wait1ms]\<rparr>))"
    by (simp add: nuvoton_frame_def red_green_def nuvoton_pixel_loop.simps delay_ms_eq
        idle_low_def replicate_two)
  show "pic_frame red_green 0 idle_low = Some (Inr (idle_low\<lparr>trace := [Wait1ms, Wait1ms]\<rparr>))"
    by (simp add: pic_frame_def red_green_def pic_pixel_loop.simps delay_ms_eq
        idle_low_def replicate_two)
  show "stm32_frame red_green 0 idle_low = Inr (idle_low\<lparr>trace := pulses 24 @ [Wait1ms, Wait1ms]\<rparr>)"
    by (simp add: stm32_frame_def stm32_Len_def red_green_def WS2812_Send_eq delay_ms_eq
        idle_low_def replicate_two)
  show "stm32_Len (red_green\<lparr>LED_COUNT := 21846\<rparr>) = 2"
    by (simp add: stm32_Len_def red_green_def)
qed

text \<open>
  Claim C3, amended to the STM32F407 template with tables that fit the C types.  Started
  at frame index 0, after \<open>m\<close> passes of the \<^verbatim>\<open>for\<close> loop (for every \<open>m\<close>: the loop
  never ends) the source has done exactly the iterations for frames
  \<open>0, ..., FRAME_COUNT - 1\<close>, in this order, \<open>m\<close> times over, each iteration being the
  encoder call on \<^verbatim>\<open>frames[i]\<close> with \<^verbatim>\<open>LED_COUNT * 3\<close> followed by
  \<^verbatim>\<open>delay_ms(frame_durations[i])\<close>; no read left the tables, and the index is 0 again.
\<close>

theorem stm32_playback_cycles_through_frames:
  assumes "fits_tables pd"
  shows "\<exists>s'. iterations pd (concat (replicate m [0..<FRAME_COUNT pd])) s = Inr s' \<and>
              stm32_playback pd (m * (FRAME_COUNT pd + 1)) 0 s = Inr (0, s')"
proof -
  have "list_all (\<lambda>k. k < FRAME_COUNT pd) (concat (replicate m [0..<FRAME_COUNT pd]))"
    by (induction m) (simp_all add: list_all_iff)
  then obtain s' where s': "iterations pd (concat (replicate m [0..<FRAME_COUNT pd])) s = Inr s'"
    using iterations_ok [OF assms] by blast
  then show ?thesis
    using stm32_playback_passes [OF assms, of m 0 s] by simp
qed

text \<open>The amended claim C3 on the two-frame pattern, for two passes of the loop.\<close>

theorem stm32_playback_cycles_through_frames_witness:
  "fits_tables red_green \<and>
   (\<exists>s'. iterations red_green (concat (replicate 2 [0..<FRAME_COUNT red_green])) idle_low = Inr s' \<and>
         stm32_playback red_green (2 * (FRAME_COUNT red_green + 1)) 0 idle_low = Inr (0, s'))"
  using stm32_playback_cycles_through_frames [of red_green 2 idle_low]
  by (simp add: fits_tables_def red_green_def)

text \<open>
  Claim C2 as stated fails when a frame's duration is 0: the first two iterations of the
  STM32 loop on \<open>no_hold\<close> put the 24 pulses of frame 1 directly after the 24 pulses of
  frame 0, with no statement executed on the line in between.
\<close>

theorem back_to_back_counterexample:
  "stm32_playback no_hold 2 0 idle_low = Inr (2, idle_low\<lparr>trace := pulses 24 @ pulses 24\<rparr>)"
  unfolding stm32_playback_two
  by (simp add: stm32_frame_def stm32_Len_def no_hold_def WS2812_Send_eq
      delay_ms_eq idle_low_def)

text \<open>
  Claim C2, amended.  In the STM32 loop, for a frame inside tables that fit, with at
  least one LED and a duration of at least 1: the transmission ends with the write LOW
  and the line LOW; from there to the end of the iteration, which is where the next
  transmission can begin, the code adds to the trace exactly \<^verbatim>\<open>frame_durations[i]\<close>
  passes of the 1 ms delay body, at least one, and no write; the line is still LOW.
  The encoder itself adds no gap.
\<close>

theorem stm32_frame_gap:
  assumes "fits_tables pd" and "unat frame_idx < FRAME_COUNT pd"
    and "LED_COUNT pd \<noteq> 0" and "frame_durations pd ! unat frame_idx \<noteq> 0"
  shows "\<exists>s1 s2. WS2812_Send (frames pd ! unat frame_idx) (stm32_Len pd) s = Inr s1 \<and>
            line s1 = LOW \<and> last (trace s1) = PinLow \<and>
            stm32_frame pd frame_idx s = Inr s2 \<and> line s2 = LOW \<and>
            trace s2 = trace s1 @ replicate (unat (frame_durations pd ! unat frame_idx)) Wait1ms \<and>
            1 \<le> unat (frame_durations pd ! unat frame_idx)"
proof -
  let ?k = "unat frame_idx"
  let ?s1 = "s\<lparr>line := LOW, trace := trace s @ pulses (8 * unat (stm32_Len pd))\<rparr>"
  have len: "unat (stm32_Len pd) = LED_COUNT pd * 3"
    using assms(1) by (rule unat_stm32_Len)
  have nz: "stm32_Len pd \<noteq> 0"
  proof
    assume "stm32_Len pd = 0"
    then have "unat (stm32_Len pd) = 0" by simp
    with len assms(3) show False by simp
  qed
  have inb: "unat (stm32_Len pd) \<le> length (frames pd ! ?k)"
    using assms(1,2) len by (simp add: fits_tables_def list_all_length)
  have s1: "WS2812_Send (frames pd ! ?k) (stm32_Len pd) s = Inr ?s1"
    and low: "last (trace s @ pulses (8 * unat (stm32_Len pd))) = PinLow"
    using WS2812_Send_nonzero [OF nz inb, of s] by simp_all
  have tables: "?k < length (frames pd)" "?k < length (frame_durations pd)"
    using assms(1,2) by (simp_all add: fits_tables_def)
  have s2: "stm32_frame pd frame_idx s = Inr (delay_ms (frame_durations pd ! ?k) ?s1)"
    using tables s1 by (simp add: stm32_frame_def)
  have "1 \<le> unat (frame_durations pd ! ?k)"
    using assms(4) by (simp add: Suc_le_eq unat_gt_0)
  then show ?thesis
    using s1 low s2 by (simp add: delay_ms_eq)
qed

text \<open>The amended claim C2 on frame 1 of the two-frame pattern (duration 3).\<close>

theorem stm32_frame_gap_witness:
  "fits_tables red_green \<and> unat (1 :: 16 word) < FRAME_COUNT red_green \<and>
   LED_COUNT red_green \<noteq> 0 \<and> frame_durations red_green ! unat (1 :: 16 word) \<noteq> 0 \<and>
   (\<exists>s1 s2. WS2812_Send (frames red_green ! unat (1 :: 16 word)) (stm32_Len red_green) idle_low = Inr s1 \<and>
      line s1 = LOW \<and> last (trace s1) = PinLow \<and>
      stm32_frame red_green 1 idle_low = Inr s2 \<and> line s2 = LOW \<and>
      trace s2 = trace s1 @ replicate 3 Wait1ms)"
  using stm32_frame_gap [of red_green 1 idle_low]
  by (simp add: fits_tables_def red_green_def)

section \<open>Facts about INIT\<close>

lemma nuvoton_init_eq:
  "nuvoton_init s = s\<lparr>pin_output := True, line := LOW, trace := trace s @ [PinLow]\<rparr>"
  by (simp add: nuvoton_init_def GPIO_CLR_def GPIO_SetMode_def SYS_Init_def)

lemma pic_init_eq:
  "pic_init s = s\<lparr>pin_output := True, line := LOW, trace := trace s @ [PinLow]\<rparr>"
  by (simp add: pic_init_def clear_LED_PORT_def clear_LED_TRIS_def set_OSCCON_def)

lemma stm32_init_eq: "stm32_init s = s\<lparr>pin_output := True\<rparr>"
  by (simp add: stm32_init_def GPIO_Init_def RCC_AHB1PeriphClockCmd_def SystemInit_def)

text \<open>
  Claim C7 at the STM32F407 template, entered with the output latch of the pin set.  Its
  INIT makes the pin an output and writes nothing to the line, so PLAYBACK is entered,
  and the encoder first called, with the line HIGH.  (The INIT of the other two
  templates ends with a write LOW.)
\<close>

theorem stm32_init_leaves_line_high:
  "stm32_init reset_high = \<lparr>pin_output = True, line = HIGH, trace = []\<rparr> \<and>
   stm32_main red_green 0 reset_high = Inr (0, \<lparr>pin_output = True, line = HIGH, trace = []\<rparr>)"
  by (simp add: stm32_main_def stm32_init_eq reset_high_def)

section \<open>Facts about the verification hasher\<close>








text \<open>
  Claim C6 as stated fails: \<^verbatim>\<open>main\<close> has no check, retry or timeout of its own, so on a
  platform whose serial calls poll a transmitter that is not ready the first call
  never returns, and neither does \<^verbatim>\<open>main\<close>.
\<close>

theorem hash_main_blocks_counterexample:
  "hash_main sample_digest polled_print polled_print_hex [] 0 uart_not_ready = None"
  by (simp add: hash_main_def polled_print_def uart_not_ready_def)

text \<open>
  Claim C6, amended.  For every digest routine, serial routines and channel state,
  \<^verbatim>\<open>main\<close> returns exactly when the three serial calls, made once each and in order,
  return one after the other; the value it then returns is 0, with the channel as the
  third call left it.  It does not retry a call and does not go on to PLAYBACK.
\<close>

theorem hash_main_returns_iff:
  "hash_main sha256_hash serial_print serial_print_hex firmware_data firmware_size c = Some r \<longleftrightarrow>
     (\<exists>c1 c2 c3.
        serial_print ''FIRMWARE_HASH:'' c = Some c1 \<and>
        serial_print_hex (sha256_hash firmware_data firmware_size) 32 c1 = Some c2 \<and>
        serial_print newline c2 = Some c3 \<and> r = (c3, 0))"
  by (auto simp add: hash_main_def split: option.splits)

text \<open>The amended claim C6 on the polled platform with a transmitter that is ready.\<close>

theorem hash_main_returns_iff_witness:
  "\<exists>c3. hash_main sample_digest polled_print polled_print_hex [] 0
           \<lparr>tx_ready = True, sent = []\<rparr> = Some (c3, 0)"
proof -
  let ?c = "\<lparr>tx_ready = True, sent = []\<rparr>"
  let ?c1 = "\<lparr>tx_ready = True, sent = ''FIRMWARE_HASH:''\<rparr>"
  let ?c2 = "?c1\<lparr>sent := sent ?c1 @ hex_string (take 32 (sample_digest [] 0))\<rparr>"
  let ?c3 = "?c2\<lparr>sent := sent ?c2 @ newline\<rparr>"
  have "polled_print ''FIRMWARE_HASH:'' ?c = Some ?c1 \<and>
        polled_print_hex (sample_digest [] 0) 32 ?c1 = Some ?c2 \<and>
        polled_print newline ?c2 = Some ?c3"
    by (simp add: polled_print_def polled_print_hex_def)
  then have "hash_main sample_digest polled_print polled_print_hex [] 0 ?c = Some (?c3, 0)"
    using hash_main_returns_iff
      [of sample_digest polled_print polled_print_hex "[]" 0 ?c "(?c3, 0)"]
    by blast
  then show ?thesis by blast
qed

section \<open>Facts about the frame table emitter\<close>

text \<open>
  Claim C4.  The emitter fails, returning an error and no tables, exactly for the
  patterns that have no frame or have a frame whose pixel count differs from the LED
  count; for every other pattern it returns tables.
\<close>

theorem emit_frame_tables_rejects_iff:
  "((\<exists>e. emit_frame_tables p = Inl e) \<longleftrightarrow>
     (pattern_frames p = [] \<or>
      (\<exists>f \<in> set (pattern_frames p). length (pixels f) \<noteq> pattern_led_count p))) \<and>
   ((\<exists>t. emit_frame_tables p = Inr t) \<longleftrightarrow>
     \<not> (pattern_frames p = [] \<or>
      (\<exists>f \<in> set (pattern_frames p). length (pixels f) \<noteq> pattern_led_count p)))"
  by (auto simp add: emit_frame_tables_def list_ex_iff)

text \<open>
  Claim C4 on a pattern whose second frame has no pixel (rejected) and on the two-frame
  pattern of the specification's scenario (accepted, with the tables the scenario gives).
\<close>

theorem emit_frame_tables_rejects_iff_witness:
  "(\<exists>e. emit_frame_tables short_frame_pattern = Inl e) \<and>
   emit_frame_tables red_green_pattern =
     Inr \<lparr>table_frame_count = 2, table_led_count = 1, table_durations = [500, 500],
          table_frames = [[255, 0, 0], [0, 255, 0]]\<rparr>"
proof
  show "\<exists>e. emit_frame_tables short_frame_pattern = Inl e"
    using emit_frame_tables_rejects_iff [of short_frame_pattern]
    by (simp add: short_frame_pattern_def)
  show "emit_frame_tables red_green_pattern =
     Inr \<lparr>table_frame_count = 2, table_led_count = 1, table_durations = [500, 500],
          table_frames = [[255, 0, 0], [0, 255, 0]]\<rparr>"
    by (simp add: emit_frame_tables_def red_green_pattern_def pixel_bytes_def)
qed

section \<open>Further facts about the templates\<close>

text \<open>
  The encoder's output does not depend on the bytes it is given: for every buffer and
  every \<^verbatim>\<open>Len\<close> inside it the call completes and adds exactly \<open>8 * Len\<close> pulses, that is
  \<open>16 * Len\<close> writes, to the trace.
\<close>

theorem WS2812_Send_pulse_count:
  assumes "unat Len \<le> length pData"
  shows "\<exists>s'. WS2812_Send pData Len s = Inr s' \<and>
           trace s' = trace s @ pulses (8 * unat Len) \<and>
           length (trace s') = length (trace s) + 16 * unat Len"
  using assms by (simp add: WS2812_Send_eq length_pulses pulses_0)

theorem WS2812_Send_pulse_count_witness:
  "unat (3 :: 16 word) \<le> length [0xFF, 0x00, 0x00 :: 8 word] \<and>
   (\<exists>s'. WS2812_Send [0xFF, 0x00, 0x00] 3 idle_low = Inr s' \<and>
      trace s' = trace idle_low @ pulses (8 * unat (3 :: 16 word)) \<and>
      length (trace s') = length (trace idle_low) + 16 * unat (3 :: 16 word))"
  using WS2812_Send_pulse_count [of 3 "[0xFF, 0x00, 0x00]" idle_low] by simp

text \<open>
  A read past the buffer: when \<^verbatim>\<open>Len\<close> exceeds the length of the buffer the call ends
  in the error, after the pulses of the bytes that were there.
\<close>

lemma WS2812_loop_out_of_bounds:
  "i \<le> length pData \<Longrightarrow> length pData < Len \<Longrightarrow> WS2812_loop pData Len i s = Inl OutOfBounds"
proof (induction pData Len i s rule: WS2812_loop.induct)
  case (1 pData Len i s)
  show ?case
  proof (cases "i < length pData")
    case True
    with 1 show ?thesis by (simp add: WS2812_loop.simps [of pData Len i])
  next
    case False
    with 1 have "i = length pData" by simp
    with 1 show ?thesis by (simp add: WS2812_loop.simps [of pData Len "length pData"])
  qed
qed

text \<open>
  \<^verbatim>\<open>delay_ms(ms)\<close> runs its 1 ms body exactly \<^verbatim>\<open>ms\<close> times, writes nothing to the line and
  leaves its level and direction as they were.
\<close>

theorem delay_ms_passes:
  "trace (delay_ms ms s) = trace s @ replicate (unat ms) Wait1ms \<and>
   line (delay_ms ms s) = line s \<and> pin_output (delay_ms ms s) = pin_output s"
  by (simp add: delay_ms_eq)

text \<open>
  The INIT of the Nuvoton template and that of the PIC template make the pin an output
  and end with a write that drives the line LOW, whatever the state at entry.
\<close>

theorem nuvoton_pic_init_drive_low:
  "pin_output (nuvoton_init s) \<and> line (nuvoton_init s) = LOW \<and>
   last (trace (nuvoton_init s)) = PinLow \<and>
   pin_output (pic_init s) \<and> line (pic_init s) = LOW \<and>
   last (trace (pic_init s)) = PinLow"
  by (simp add: nuvoton_init_eq pic_init_eq)

text \<open>
  The pixel loop of the PIC template counts in a \<^verbatim>\<open>uint8_t\<close>.  It returns for every
  \<^verbatim>\<open>LED_COUNT\<close> up to 255; from 256 on the counter wraps before it reaches the bound,
  and the loop, and with it the loop body of PLAYBACK, never returns.
\<close>

lemma pic_pixel_loop_Some_small:
  "pic_pixel_loop led_count i = Some y \<Longrightarrow> led_count < 256"
proof (rule pic_pixel_loop.raw_induct [where P = "\<lambda>n j y. n < 256"])
  fix f :: "nat \<Rightarrow> 8 word \<Rightarrow> unit option" and n j y
  assume IH: "\<And>n j y. f n j = Some y \<Longrightarrow> n < 256"
    and body: "(if unat j < n then f n (j + 1) else Some ()) = Some y"
  show "n < 256"
  proof (cases "unat j < n")
    case True
    with body IH show ?thesis by simp
  next
    case False
    moreover have "unat j < 256" using unsigned_less [of j] by simp
    ultimately show ?thesis by simp
  qed
qed

lemma pic_pixel_loop_returns:
  assumes "led_count \<le> 255"
  shows "pic_pixel_loop led_count i = Some ()"
  using assms
proof (induction "256 - unat i" arbitrary: i rule: less_induct)
  case less
  show ?case
  proof (cases "unat i < led_count")
    case False
    then show ?thesis by (subst pic_pixel_loop.simps) simp
  next
    case True
    then have small: "unat i < 255" using less.prems by simp
    then have "unat (i + 1) = unat i + 1"
      by (simp add: unat_word_ariths)
    then have "256 - unat (i + 1) < 256 - unat i" using small by simp
    then have "pic_pixel_loop led_count (i + 1) = Some ()"
      using less.hyps less.prems by blast
    then show ?thesis using True by (subst pic_pixel_loop.simps) simp
  qed
qed

theorem pic_frame_returns_iff:
  assumes "unat frame_idx < length (frames pd)"
    and "unat frame_idx < length (frame_durations pd)"
  shows "pic_frame pd frame_idx s =
           (if LED_COUNT pd \<le> 255
            then Some (Inr (delay_ms (frame_durations pd ! unat frame_idx) s))
            else None)"
proof (cases "LED_COUNT pd \<le> 255")
  case True
  then show ?thesis
    using assms by (simp add: pic_frame_def pic_pixel_loop_returns)
next
  case False
  have "pic_pixel_loop (LED_COUNT pd) 0 = None"
  proof (cases "pic_pixel_loop (LED_COUNT pd) 0")
    case None
    then show ?thesis .
  next
    case (Some y)
    then have "LED_COUNT pd < 256" by (rule pic_pixel_loop_Some_small)
    with False show ?thesis by simp
  qed
  then show ?thesis
    using assms False by (simp add: pic_frame_def)
qed

theorem pic_frame_returns_iff_witness:
  "unat (0 :: 8 word) < length (frames (red_green\<lparr>LED_COUNT := 300\<rparr>)) \<and>
   unat (0 :: 8 word) < length (frame_durations (red_green\<lparr>LED_COUNT := 300\<rparr>)) \<and>
   pic_frame (red_green\<lparr>LED_COUNT := 300\<rparr>) 0 idle_low = None"
  using pic_frame_returns_iff [of 0 "red_green\<lparr>LED_COUNT := 300\<rparr>" idle_low]
  by (simp add: red_green_def)

end
